theory Spec2Isabelle
  imports Main "HOL-Library.Char_ord" "HOL-Library.List_Lexorder"
begin

section \<open>Terminal Hangman (TerminalBased.py)\<close>

text \<open>
  A shallow embedding of \<^verbatim>\<open>TerminalBased.py\<close>. A Python \<^verbatim>\<open>str\<close> is a
  \<^typ>\<open>string\<close>; the model covers ASCII text, which is what the word list, the figure
  art and every message of the program consist of. The set of guessed letters is a set of
  one-character strings, as in the source, and is ordered as Python orders strings
  (lexicographically by character code). Counters are Python integers, hence \<^typ>\<open>int\<close>.
  Pauses (\<^verbatim>\<open>time.sleep\<close>) and the clearing of the screen leave no trace in the model;
  what is printed does.
\<close>

subsection \<open>Python built-ins used by the program\<close>

text \<open>
  The exceptions: \<^verbatim>\<open>IndexError\<close> and \<^verbatim>\<open>EOFError\<close> are the two that the built-ins
  the program calls can raise. \<open>ConfigurationError\<close> is the specification's name for a
  failed configuration; nothing in the program raises it.
\<close>

datatype error = IndexError | EOFError | ConfigurationError

text \<open>\<^verbatim>\<open>str.upper\<close> on ASCII text: the 26 lower-case letters change, nothing else does.\<close>

definition upper_char :: "char \<Rightarrow> char" where
  "upper_char c =
     (case map_of (zip ''abcdefghijklmnopqrstuvwxyz'' ''ABCDEFGHIJKLMNOPQRSTUVWXYZ'') c of
        Some u \<Rightarrow> u
      | None \<Rightarrow> c)"

definition upper :: "string \<Rightarrow> string" where
  "upper s = map upper_char s"

text \<open>\<^verbatim>\<open>str.lower\<close>, likewise.\<close>

definition lower_char :: "char \<Rightarrow> char" where
  "lower_char c =
     (case map_of (zip ''ABCDEFGHIJKLMNOPQRSTUVWXYZ'' ''abcdefghijklmnopqrstuvwxyz'') c of
        Some l \<Rightarrow> l
      | None \<Rightarrow> c)"

definition lower :: "string \<Rightarrow> string" where
  "lower s = map lower_char s"

text \<open>\<^verbatim>\<open>s.ljust(width)\<close> pads with spaces on the right and never truncates.\<close>

definition ljust :: "string \<Rightarrow> nat \<Rightarrow> string" where
  "ljust s width = s @ replicate (width - length s) (CHR '' '')"

text \<open>\<^verbatim>\<open>s.split(sep)\<close> for a one-character separator: always at least one piece.\<close>

fun split_loop :: "char \<Rightarrow> string \<Rightarrow> string \<Rightarrow> string list" where
  "split_loop sep [] piece = [piece]"
| "split_loop sep (c # cs) piece =
     (if c = sep then piece # split_loop sep cs [] else split_loop sep cs (piece @ [c]))"

definition str_split :: "char \<Rightarrow> string \<Rightarrow> string list" where
  "str_split sep s = split_loop sep s []"

text \<open>\<^verbatim>\<open>s.strip()\<close> removes the ASCII white space at both ends.\<close>

definition isspace :: "char \<Rightarrow> bool" where
  "isspace c \<longleftrightarrow>
     c \<in> set [CHR 0x09, CHR 0x0A, CHR 0x0B, CHR 0x0C, CHR 0x0D,
              CHR 0x1C, CHR 0x1D, CHR 0x1E, CHR 0x1F, CHR 0x20]"

definition strip :: "string \<Rightarrow> string" where
  "strip s = rev (dropWhile isspace (rev (dropWhile isspace s)))"

text \<open>\<^verbatim>\<open>sep.join(xs)\<close>.\<close>

fun join :: "string \<Rightarrow> string list \<Rightarrow> string" where
  "join sep [] = []"
| "join sep [x] = x"
| "join sep (x # y # ys) = x @ sep @ join sep (y # ys)"

text \<open>\<^verbatim>\<open>str(n)\<close> of an integer, as an f-string formats it.\<close>

fun str_nat :: "nat \<Rightarrow> string" where
  "str_nat n =
     (if n < 10 then [''0123456789'' ! n]
      else str_nat (n div 10) @ [''0123456789'' ! (n mod 10)])"

definition str_int :: "int \<Rightarrow> string" where
  "str_int i = (if i < 0 then ''-'' @ str_nat (nat (- i)) else str_nat (nat i))"

text \<open>
  \<^verbatim>\<open>xs[i]\<close>: a negative index counts from the end, and an index outside
  \<^verbatim>\<open>-len(xs) .. len(xs) - 1\<close> raises \<^verbatim>\<open>IndexError\<close>.
\<close>

definition getitem :: "'a list \<Rightarrow> int \<Rightarrow> error + 'a" where
  "getitem seq index =
     (if 0 \<le> index \<and> index < int (length seq) then Inr (seq ! nat index)
      else if - int (length seq) \<le> index \<and> index < 0
        then Inr (seq ! nat (int (length seq) + index))
      else Inl IndexError)"

text \<open>\<^verbatim>\<open>sub in s\<close> on strings: \<^verbatim>\<open>sub\<close> occurs in \<^verbatim>\<open>s\<close> as a substring.\<close>

fun startswith :: "string \<Rightarrow> string \<Rightarrow> bool" where
  "startswith s [] = True"
| "startswith [] (c # sub) = False"
| "startswith (d # s) (c # sub) = (d = c \<and> startswith s sub)"

fun str_contains :: "string \<Rightarrow> string \<Rightarrow> bool" where
  "str_contains [] sub = (sub = [])"
| "str_contains (d # s) sub = (startswith (d # s) sub \<or> str_contains s sub)"

text \<open>
  \<^verbatim>\<open>random.choice(seq)\<close>: the generator's draw is the argument \<open>r\<close>; on an empty
  sequence the library raises \<^verbatim>\<open>IndexError\<close>.
\<close>

definition random_choice :: "nat \<Rightarrow> 'a list \<Rightarrow> error + 'a" where
  "random_choice r seq =
     (if seq = [] then Inl IndexError else Inr (seq ! (r mod length seq)))"

subsection \<open>Configuration\<close>

definition WORD_LIST :: "string list" where
  "WORD_LIST =
     [''PYTHON'', ''PROGRAMMING'', ''COMPUTER'', ''DEVELOPER'', ''ALGORITHM'',
      ''TERMINAL'', ''SCANLINE'', ''RETRO'', ''HANGMAN'', ''KEYBOARD'',
      ''MONITOR'', ''ELECTRONIC'', ''VINTAGE'', ''CONSOLE'', ''PIXEL'']"

definition HANGMAN_STAGES :: "string list" where
  "HANGMAN_STAGES =
    [
      ''\<newline>'' @
      ''       -----\<newline>'' @
      ''       |   |\<newline>'' @
      ''           |\<newline>'' @
      ''           |\<newline>'' @
      ''           |\<newline>'' @
      ''           |\<newline>'' @
      ''    ---------\<newline>'' @
      ''    '',
      ''\<newline>'' @
      ''       -----\<newline>'' @
      ''       |   |\<newline>'' @
      ''       O   |\<newline>'' @
      ''           |\<newline>'' @
      ''           |\<newline>'' @
      ''           |\<newline>'' @
      ''    ---------\<newline>'' @
      ''    '',
      ''\<newline>'' @
      ''       -----\<newline>'' @
      ''       |   |\<newline>'' @
      ''       O   |\<newline>'' @
      ''       |   |\<newline>'' @
      ''           |\<newline>'' @
      ''           |\<newline>'' @
      ''    ---------\<newline>'' @
      ''    '',
      ''\<newline>'' @
      ''       -----\<newline>'' @
      ''       |   |\<newline>'' @
      ''       O   |\<newline>'' @
      ''      /|   |\<newline>'' @
      ''           |\<newline>'' @
      ''           |\<newline>'' @
      ''    ---------\<newline>'' @
      ''    '',
      ''\<newline>'' @
      ''       -----\<newline>'' @
      ''       |   |\<newline>'' @
      ''       O   |\<newline>'' @
      ''      /|'' @ [CHR 0x5C] @ ''  |\<newline>'' @
      ''           |\<newline>'' @
      ''           |\<newline>'' @
      ''    ---------\<newline>'' @
      ''    '',
      ''\<newline>'' @
      ''       -----\<newline>'' @
      ''       |   |\<newline>'' @
      ''       O   |\<newline>'' @
      ''      /|'' @ [CHR 0x5C] @ ''  |\<newline>'' @
      ''      /    |\<newline>'' @
      ''           |\<newline>'' @
      ''    ---------\<newline>'' @
      ''    '',
      ''\<newline>'' @
      ''       -----\<newline>'' @
      ''       |   |\<newline>'' @
      ''       O   |\<newline>'' @
      ''      /|'' @ [CHR 0x5C] @ ''  |\<newline>'' @
      ''      / '' @ [CHR 0x5C] @ ''  |\<newline>'' @
      ''           |\<newline>'' @
      ''    ---------\<newline>'' @
      ''    ''
    ]"

definition MAX_INCORRECT_GUESSES :: int where
  "MAX_INCORRECT_GUESSES = int (length HANGMAN_STAGES) - 1"

subsection \<open>Styling\<close>

text \<open>
  The escape sequences come from the colorama library, which is not part of the program:
  they are parameters of the model.
\<close>

record ansi =
  Fore_GREEN :: string
  Back_BLACK :: string
  Style_BRIGHT :: string
  Style_DIM :: string
  Style_RESET_ALL :: string

definition apply_crt_style :: "ansi \<Rightarrow> string \<Rightarrow> bool \<Rightarrow> string" where
  "apply_crt_style st text bright =
     (if bright then Fore_GREEN st @ Back_BLACK st @ Style_BRIGHT st @ text @ Style_RESET_ALL st
      else Fore_GREEN st @ Back_BLACK st @ Style_DIM st @ text @ Style_RESET_ALL st)"

text \<open>The sequences colorama defines, for concrete runs of the model.\<close>

definition colorama :: ansi where
  "colorama =
     \<lparr>Fore_GREEN = [CHR 0x1B] @ ''[32m'', Back_BLACK = [CHR 0x1B] @ ''[40m'',
      Style_BRIGHT = [CHR 0x1B] @ ''[1m'', Style_DIM = [CHR 0x1B] @ ''[2m'',
      Style_RESET_ALL = [CHR 0x1B] @ ''[0m''\<rparr>"

subsection \<open>The frame\<close>

text \<open>The \<^verbatim>\<open>while\<close> loop of \<^verbatim>\<open>draw_border_and_content\<close> that fills the screen height.\<close>

function fill_lines :: "string list \<Rightarrow> nat \<Rightarrow> nat \<Rightarrow> string list" where
  "fill_lines padded_content_lines height width =
     (if length padded_content_lines < height - 2
      then fill_lines (padded_content_lines @ [ljust '''' (width - 4)]) height width
      else padded_content_lines)"
  by pat_completeness auto
termination
  by (relation "measure (\<lambda>(p, h, w). h - 2 - length p)") auto

declare fill_lines.simps [simp del]

definition draw_border_and_content :: "ansi \<Rightarrow> string list \<Rightarrow> string list" where
  "draw_border_and_content st content_lines =
     (let width = 80; height = 24;
          padded_content_lines = map (\<lambda>line. ljust line (width - 4)) content_lines;
          padded_content_lines = fill_lines padded_content_lines height width
      in [apply_crt_style st (''+'' @ replicate (width - 2) (CHR ''-'') @ ''+'') False] @
         map (\<lambda>line. apply_crt_style st (''| '' @ line @ '' |'') True) padded_content_lines @
         [apply_crt_style st (''+'' @ replicate (width - 2) (CHR ''-'') @ ''+'') False])"

text \<open>
  The rows of the frame as they are before \<^verbatim>\<open>apply_crt_style\<close> is applied to them:
  the border line, and the content lines padded and set between the side borders.
\<close>

definition border_line :: string where
  "border_line = ''+'' @ replicate 78 (CHR ''-'') @ ''+''"

definition content_rows :: "string list \<Rightarrow> string list" where
  "content_rows content_lines =
     map (\<lambda>line. ''| '' @ line @ '' |'')
       (map (\<lambda>line. ljust line 76) content_lines
        @ replicate (22 - length content_lines) (replicate 76 (CHR '' '')))"

definition frame_rows :: "string list \<Rightarrow> string list" where
  "frame_rows content_lines = [border_line] @ content_rows content_lines @ [border_line]"

text \<open>The masked word of \<^verbatim>\<open>display_game\<close>: the loop appends to \<^verbatim>\<open>display_word\<close>.\<close>

fun display_word_loop :: "string \<Rightarrow> string set \<Rightarrow> string \<Rightarrow> string" where
  "display_word_loop [] guessed_letters display_word = display_word"
| "display_word_loop (letter # rest) guessed_letters display_word =
     display_word_loop rest guessed_letters
       (if [letter] \<in> guessed_letters then display_word @ [letter] @ '' ''
        else display_word @ ''_ '')"

text \<open>
  The list \<^verbatim>\<open>content\<close> that \<^verbatim>\<open>display_game\<close> assembles; the stage lookup can raise.
\<close>

definition game_content ::
  "ansi \<Rightarrow> string \<Rightarrow> string set \<Rightarrow> int \<Rightarrow> string \<Rightarrow> error + string list" where
  "game_content st chosen_word guessed_letters incorrect_guesses message =
     (let display_word = display_word_loop chosen_word guessed_letters '''' in
      case getitem HANGMAN_STAGES incorrect_guesses of
        Inl e \<Rightarrow> Inl e
      | Inr stage \<Rightarrow>
          (let hangman_art = str_split (CHR ''\<newline>'') stage in
           Inr ([replicate 15 (CHR '' '') @ Style_BRIGHT st @ ''--- HANGMAN CRT EDITION ---''
                   @ Style_RESET_ALL st,
                 '''']
                @ hangman_art @
                ['''',
                 '' Word: '' @ strip display_word,
                 '' Guessed Letters: ''
                   @ join '', '' (sorted_list_of_set (guessed_letters - {'' ''})),
                 '' Incorrect Guesses Left: ''
                   @ str_int (MAX_INCORRECT_GUESSES - incorrect_guesses),
                 '''',
                 '' Status: '' @ message,
                 '''',
                 '' >_ ''])))"

text \<open>
  \<^verbatim>\<open>display_game\<close> prints the frame; \<^verbatim>\<open>skip_effect\<close> only chooses between the
  paced and the immediate printing of the same lines.
\<close>

definition display_game ::
  "ansi \<Rightarrow> string \<Rightarrow> string set \<Rightarrow> int \<Rightarrow> string \<Rightarrow> bool \<Rightarrow> error + string list" where
  "display_game st chosen_word guessed_letters incorrect_guesses message skip_effect =
     (case game_content st chosen_word guessed_letters incorrect_guesses message of
        Inl e \<Rightarrow> Inl e
      | Inr content \<Rightarrow> Inr (draw_border_and_content st content))"

subsection \<open>Game logic\<close>

text \<open>
  \<^verbatim>\<open>get_guess\<close> reads one line, \<open>raw\<close>. Every path through the body of its
  \<^verbatim>\<open>while True\<close> returns, so the body runs once. The result pairs the message printed
  on a rejection with the value returned (\<^verbatim>\<open>None\<close> or the guess).
\<close>

definition invalid_input_message :: string where
  "invalid_input_message = ''Invalid input. Please enter a single letter (A-Z).''"

definition already_guessed_message :: "string \<Rightarrow> string" where
  "already_guessed_message guess =
     ''You already guessed '' @ [CHR 0x27] @ guess @ [CHR 0x27] @ ''. Try again.''"

definition get_guess :: "ansi \<Rightarrow> string \<Rightarrow> string set \<Rightarrow> string option \<times> string option" where
  "get_guess st raw already_guessed =
     (let guess = upper raw in
      if length guess \<noteq> 1 \<or> \<not> (''A'' \<le> guess \<and> guess \<le> ''Z'') then
        (Some (apply_crt_style st invalid_input_message True), None)
      else if guess \<in> already_guessed then
        (Some (apply_crt_style st (already_guessed_message guess) True), None)
      else (None, Some guess))"

text \<open>The local variables of one game in \<^verbatim>\<open>play_game\<close>.\<close>

record game_state =
  chosen_word :: string
  guessed_letters :: "string set"
  incorrect_guesses :: int

definition new_game :: "string \<Rightarrow> game_state" where
  "new_game chosen = \<lparr>chosen_word = chosen, guessed_letters = {}, incorrect_guesses = 0\<rparr>"

text \<open>The two checks at the head of the game loop, in the order the loop makes them.\<close>

definition win_condition :: "game_state \<Rightarrow> bool" where
  "win_condition s = list_all (\<lambda>letter. [letter] \<in> guessed_letters s) (chosen_word s)"

definition loss_condition :: "game_state \<Rightarrow> bool" where
  "loss_condition s \<longleftrightarrow> incorrect_guesses s \<ge> MAX_INCORRECT_GUESSES"



text \<open>The accepted guess is added and counted.\<close>

definition process_guess :: "game_state \<Rightarrow> string \<Rightarrow> game_state" where
  "process_guess s guess =
     (let s = s\<lparr>guessed_letters := insert guess (guessed_letters s)\<rparr> in
      if \<not> str_contains (chosen_word s) guess
      then s\<lparr>incorrect_guesses := incorrect_guesses s + 1\<rparr>
      else s)"

definition guess_message :: "game_state \<Rightarrow> string \<Rightarrow> string" where
  "guess_message s guess =
     (if \<not> str_contains (chosen_word s) guess
      then [CHR 0x27] @ guess @ [CHR 0x27] @ '' is not in the word.''
      else ''Good guess! '' @ [CHR 0x27] @ guess @ [CHR 0x27] @ '' is in the word.'')"

definition show_game :: "ansi \<Rightarrow> game_state \<Rightarrow> string \<Rightarrow> bool \<Rightarrow> error + string list" where
  "show_game st s message skip_effect =
     display_game st (chosen_word s) (guessed_letters s) (incorrect_guesses s) message
       skip_effect"

text \<open>
  The loop \<^verbatim>\<open>while guess is None\<close>: the lines of standard input are the list
  \<open>inputs\<close>, and reading past its end raises \<^verbatim>\<open>EOFError\<close>. The result is the guess
  and the lines not yet read.
\<close>

fun read_guess :: "ansi \<Rightarrow> game_state \<Rightarrow> string list \<Rightarrow> error + string \<times> string list" where
  "read_guess st s [] =
     (case show_game st s ''Enter your guess...'' False of
        Inl e \<Rightarrow> Inl e
      | Inr frame \<Rightarrow> Inl EOFError)"
| "read_guess st s (raw # rest) =
     (case show_game st s ''Enter your guess...'' False of
        Inl e \<Rightarrow> Inl e
      | Inr frame \<Rightarrow>
          (case snd (get_guess st raw (guessed_letters s)) of
             None \<Rightarrow> read_guess st s rest
           | Some guess \<Rightarrow> Inr (guess, rest)))"

lemma read_guess_shorter:
  "read_guess st s inputs = Inr (guess, rest) \<Longrightarrow> length rest < length inputs"
  by (induction inputs) (auto split: sum.splits option.splits)

text \<open>
  The loop \<^verbatim>\<open>while not game_over\<close>. The result is the state in which the game ended
  and the lines not yet read.
\<close>

function game_loop :: "ansi \<Rightarrow> game_state \<Rightarrow> string list \<Rightarrow> error + game_state \<times> string list" where
  "game_loop st s inputs =
     (case show_game st s ''Guess a letter.'' False of
        Inl e \<Rightarrow> Inl e
      | Inr frame \<Rightarrow>
          if win_condition s then
            (case show_game st s ''CONGRATULATIONS! You guessed the word!'' True of
               Inl e \<Rightarrow> Inl e
             | Inr frame \<Rightarrow> Inr (s, inputs))
          else if loss_condition s then
            (case show_game st s
                    (''GAME OVER! The word was '' @ [CHR 0x27] @ chosen_word s @ [CHR 0x27]
                       @ ''.'') True of
               Inl e \<Rightarrow> Inl e
             | Inr frame \<Rightarrow> Inr (s, inputs))
          else
            (case read_guess st s inputs of
               Inl e \<Rightarrow> Inl e
             | Inr (guess, rest) \<Rightarrow>
                 (case show_game st (process_guess s guess) (guess_message s guess) False of
                    Inl e \<Rightarrow> Inl e
                  | Inr frame \<Rightarrow> game_loop st (process_guess s guess) rest)))"
  by pat_completeness auto
termination
  by (relation "measure (\<lambda>(st, s, inputs). length inputs)")
     (auto dest: read_guess_shorter)

declare game_loop.simps [simp del]

text \<open>One game: the word is drawn, then the loop runs.\<close>

definition play_round :: "ansi \<Rightarrow> nat \<Rightarrow> string list \<Rightarrow> error + game_state \<times> string list" where
  "play_round st r inputs =
     (case random_choice r WORD_LIST of
        Inl e \<Rightarrow> Inl e
      | Inr chosen \<Rightarrow> game_loop st (new_game chosen) inputs)"

text \<open>
  \<^verbatim>\<open>play_game\<close>: games are played as long as the answer to the closing question is
  \<^verbatim>\<open>yes\<close> in any case of letters. The draws of the generator are the sequence
  \<open>draw\<close>, and \<open>n\<close> counts the games played.
\<close>

lemma game_loop_rest:
  "game_loop st s inputs = Inr (s', rest) \<Longrightarrow> length rest \<le> length inputs"
proof (induction st s inputs rule: game_loop.induct)
  case (1 st s inputs)
  show ?case
  proof (cases "win_condition s \<or> loss_condition s")
    case True
    with "1.prems" show ?thesis
      by (subst (asm) game_loop.simps) (auto split: sum.splits if_splits)
  next
    case False
    with "1.prems" obtain frame guess rest' frame' where
      frame: "show_game st s ''Guess a letter.'' False = Inr frame"
      and read: "read_guess st s inputs = Inr (guess, rest')"
      and frame': "show_game st (process_guess s guess) (guess_message s guess) False
                     = Inr frame'"
      and run: "game_loop st (process_guess s guess) rest' = Inr (s', rest)"
      by (subst (asm) game_loop.simps) (auto split: sum.splits)
    from "1.IH" [OF frame _ _ read refl frame' run] False
    have "length rest \<le> length rest'" by simp
    with read_guess_shorter [OF read] show ?thesis by simp
  qed
qed

function play_game :: "ansi \<Rightarrow> (nat \<Rightarrow> nat) \<Rightarrow> nat \<Rightarrow> string list \<Rightarrow> error + unit" where
  "play_game st draw n inputs =
     (case play_round st (draw n) inputs of
        Inl e \<Rightarrow> Inl e
      | Inr (s, rest) \<Rightarrow>
          (case rest of
             [] \<Rightarrow> Inl EOFError
           | play_again # rest' \<Rightarrow>
               if lower play_again \<noteq> ''yes'' then Inr ()
               else play_game st draw (Suc n) rest'))"
  by pat_completeness auto
termination
proof (relation "measure (\<lambda>(st, draw, n, inputs). length inputs)")
  show "wf (measure (\<lambda>(st, draw, n, inputs). length inputs))" by simp
next
  fix st :: ansi and draw :: "nat \<Rightarrow> nat" and n :: nat and inputs :: "string list"
    and x :: "game_state \<times> string list" and s rest play_again rest'
  assume "play_round st (draw n) inputs = Inr x" and "(s, rest) = x"
    and "rest = play_again # rest'"
  then have "game_loop st (new_game (WORD_LIST ! (draw n mod length WORD_LIST))) inputs
      = Inr (s, play_again # rest')"
    by (auto simp: play_round_def random_choice_def split: if_splits)
  from game_loop_rest [OF this]
  show "((st, draw, Suc n, rest'), st, draw, n, inputs)
      \<in> measure (\<lambda>(st, draw, n, inputs). length inputs)"
    by simp
qed

declare play_game.simps [simp del]

text \<open>
  The states a game passes through: it starts with a word of the list, and a guess is
  processed only when neither check has ended the game and \<^verbatim>\<open>get_guess\<close> has
  returned it.
\<close>

inductive reachable :: "game_state \<Rightarrow> bool" where
  start: "chosen \<in> set WORD_LIST \<Longrightarrow> reachable (new_game chosen)"
| guess: "reachable s \<Longrightarrow> \<not> win_condition s \<Longrightarrow> \<not> loss_condition s \<Longrightarrow>
          snd (get_guess st raw (guessed_letters s)) = Some guess \<Longrightarrow>
          reachable (process_guess s guess)"

section \<open>Properties\<close>

subsection \<open>Auxiliary facts\<close>

lemma one_char_range: "(''A'' \<le> [c] \<and> [c] \<le> ''Z'') \<longleftrightarrow> (CHR ''A'' \<le> c \<and> c \<le> CHR ''Z'')"
  by auto

lemma upper_a: "upper ''a'' = ''A''" and upper_ab: "upper ''ab'' = ''AB''"
  and upper_1: "upper ''1'' = ''1''" and upper_A: "upper ''A'' = ''A''"
  by (simp_all add: upper_def upper_char_def)

lemma apply_crt_style_inject:
  "apply_crt_style st a b = apply_crt_style st c b \<longleftrightarrow> a = c"
  by (simp add: apply_crt_style_def)

lemma messages_differ: "invalid_input_message \<noteq> already_guessed_message guess"
  by (simp add: invalid_input_message_def already_guessed_message_def)

lemma display_word_loop_acc:
  "display_word_loop w g acc =
     acc @ concat (map (\<lambda>letter. if [letter] \<in> g then [letter] @ '' '' else ''_ '') w)"
  by (induction w arbitrary: acc) auto

lemma fill_lines_eq:
  "fill_lines p h w = p @ replicate (h - 2 - length p) (ljust '''' (w - 4))"
proof (induction p h w rule: fill_lines.induct)
  case (1 p h w)
  show ?case
  proof (cases "length p < h - 2")
    case True
    then have "h - 2 - length p = Suc (h - 2 - Suc (length p))" by arith
    with True "1" show ?thesis
      by (subst fill_lines.simps) (simp add: replicate_app_Cons_same)
  next
    case False
    then show ?thesis by (subst fill_lines.simps) simp
  qed
qed

lemma draw_border_and_content_rows:
  "draw_border_and_content st content_lines =
     apply_crt_style st border_line False
     # map (\<lambda>row. apply_crt_style st row True) (content_rows content_lines)
     @ [apply_crt_style st border_line False]"
  by (simp add: draw_border_and_content_def fill_lines_eq border_line_def content_rows_def
      ljust_def Let_def)

lemma length_border_line: "length border_line = 80"
  by (simp add: border_line_def)

lemma length_content_rows:
  "length content_lines \<le> 22 \<Longrightarrow> length (content_rows content_lines) = 22"
  by (simp add: content_rows_def)

lemma content_row_width:
  assumes "i < length content_lines" "length (content_lines ! i) \<le> 76"
  shows "length (content_rows content_lines ! i) = 80"
  using assms by (simp add: content_rows_def nth_append ljust_def)

lemma filler_row_width:
  assumes "length content_lines \<le> i" "i < 22"
  shows "length (content_rows content_lines ! i) = 80"
  using assms by (simp add: content_rows_def nth_append)

subsection \<open>Invariants of the game\<close>

lemma MAX_INCORRECT_GUESSES_6: "MAX_INCORRECT_GUESSES = 6"
  by (simp add: MAX_INCORRECT_GUESSES_def HANGMAN_STAGES_def)

lemma str_contains_one: "str_contains w [c] \<longleftrightarrow> c \<in> set w"
proof (induction w)
  case Nil
  show ?case by simp
next
  case (Cons d w)
  have "startswith (d # w) [c] \<longleftrightarrow> d = c"
    by (cases w) simp_all
  with Cons show ?case by auto
qed

lemma get_guess_accepted:
  assumes "snd (get_guess st raw already_guessed) = Some guess"
  shows "guess = upper raw \<and> guess \<notin> already_guessed
         \<and> (\<exists>c. guess = [c] \<and> CHR ''A'' \<le> c \<and> c \<le> CHR ''Z'')"
proof (cases "length (upper raw) = 1")
  case True
  then obtain c where c: "upper raw = [c]"
    by (cases "upper raw") auto
  show ?thesis
    using assms one_char_range [of c]
    by (auto simp: get_guess_def c Let_def split: if_splits)
next
  case False
  with assms show ?thesis
    by (auto simp: get_guess_def Let_def)
qed

lemma chosen_word_process_guess [simp]:
  "chosen_word (process_guess s guess) = chosen_word s"
  by (simp add: process_guess_def Let_def)

lemma guessed_letters_process_guess [simp]:
  "guessed_letters (process_guess s guess) = insert guess (guessed_letters s)"
  by (simp add: process_guess_def Let_def)

lemma incorrect_guesses_process_guess:
  "incorrect_guesses (process_guess s guess) =
     (if str_contains (chosen_word s) guess then incorrect_guesses s
      else incorrect_guesses s + 1)"
  by (simp add: process_guess_def Let_def)

lemma reachable_word: "reachable s \<Longrightarrow> chosen_word s \<in> set WORD_LIST"
  by (induction rule: reachable.induct) (simp_all add: new_game_def)

lemma reachable_letters:
  "reachable s \<Longrightarrow>
     finite (guessed_letters s)
     \<and> (\<forall>g \<in> guessed_letters s. \<exists>c. g = [c] \<and> CHR ''A'' \<le> c \<and> c \<le> CHR ''Z'')"
proof (induction rule: reachable.induct)
  case (start chosen)
  show ?case by (simp add: new_game_def)
next
  case (guess s st raw guess)
  from get_guess_accepted [OF guess.hyps(4)] guess.IH show ?case by auto
qed

lemma reachable_incorrect:
  "reachable s \<Longrightarrow> 0 \<le> incorrect_guesses s \<and> incorrect_guesses s \<le> MAX_INCORRECT_GUESSES"
proof (induction rule: reachable.induct)
  case (start chosen)
  show ?case by (simp add: new_game_def MAX_INCORRECT_GUESSES_6)
next
  case (guess s st raw guess)
  then show ?case
    by (auto simp: incorrect_guesses_process_guess loss_condition_def)
qed

lemma reachable_wrong_count:
  "reachable s \<Longrightarrow>
     incorrect_guesses s
       = int (card {g \<in> guessed_letters s. \<not> str_contains (chosen_word s) g})"
proof (induction rule: reachable.induct)
  case (start chosen)
  show ?case by (simp add: new_game_def)
next
  case (guess s st raw guess)
  let ?wrong = "{g \<in> guessed_letters s. \<not> str_contains (chosen_word s) g}"
  have fin: "finite ?wrong"
    using reachable_letters [OF guess.hyps(1)] by simp
  have new: "guess \<notin> guessed_letters s"
    using get_guess_accepted [OF guess.hyps(4)] by blast
  show ?case
  proof (cases "str_contains (chosen_word s) guess")
    case True
    then have "{g \<in> insert guess (guessed_letters s). \<not> str_contains (chosen_word s) g} = ?wrong"
      by auto
    with True guess.IH show ?thesis
      by (simp add: incorrect_guesses_process_guess)
  next
    case False
    then have "{g \<in> insert guess (guessed_letters s). \<not> str_contains (chosen_word s) g}
        = insert guess ?wrong"
      by auto
    moreover have "guess \<notin> ?wrong" using new by simp
    ultimately show ?thesis
      using False guess.IH fin by (simp add: incorrect_guesses_process_guess)
  qed
qed

lemma reachable_card:
  assumes "reachable s"
  shows "card (guessed_letters s) \<le> length (chosen_word s) + 6"
proof -
  let ?G = "guessed_letters s"
  let ?w = "chosen_word s"
  let ?wrong = "{g \<in> ?G. \<not> str_contains ?w g}"
  let ?right = "{g \<in> ?G. str_contains ?w g}"
  from reachable_letters [OF assms]
  have fin: "finite ?G" and one: "\<forall>g \<in> ?G. \<exists>c. g = [c] \<and> CHR ''A'' \<le> c \<and> c \<le> CHR ''Z''"
    by simp_all
  have "?right \<subseteq> (\<lambda>c. [c]) ` set ?w"
    using one by (auto simp: str_contains_one)
  then have "card ?right \<le> card ((\<lambda>c. [c]) ` set ?w)"
    by (intro card_mono) simp_all
  also have "\<dots> \<le> card (set ?w)" by (rule card_image_le) simp
  also have "\<dots> \<le> length ?w" by (rule card_length)
  finally have right: "card ?right \<le> length ?w" .
  have "int (card ?wrong) \<le> 6"
    using reachable_wrong_count [OF assms] reachable_incorrect [OF assms]
    by (simp add: MAX_INCORRECT_GUESSES_6)
  then have wrong: "card ?wrong \<le> 6" by simp
  have "?G = ?right \<union> ?wrong" by auto
  then have "card ?G \<le> card ?right + card ?wrong"
    by (metis card_Un_le)
  with right wrong show ?thesis by linarith
qed

lemma word_length: "w \<in> set WORD_LIST \<Longrightarrow> 1 \<le> length w \<and> length w \<le> 11"
  by (auto simp: WORD_LIST_def)

subsection \<open>The content lines\<close>

lemma length_join_letters:
  "\<forall>x \<in> set xs. length x = 1 \<Longrightarrow> length (join '', '' xs) = 3 * length xs - 2"
  by (induction "'', ''" xs rule: join.induct) auto

lemma length_strip_le: "length (strip s) \<le> length s"
proof -
  have "length (strip s) \<le> length (dropWhile isspace s)"
    unfolding strip_def using length_dropWhile_le [of isspace "rev (dropWhile isspace s)"]
    by simp
  also have "\<dots> \<le> length s" by (rule length_dropWhile_le)
  finally show ?thesis .
qed

lemma length_display_word_loop:
  "length (display_word_loop w g acc) = length acc + 2 * length w"
  by (induction w arbitrary: acc) auto

lemma length_str_int_digit: "0 \<le> i \<Longrightarrow> i < 10 \<Longrightarrow> length (str_int i) = 1"
  by (simp add: str_int_def)

lemma getitem_in_range:
  "0 \<le> i \<Longrightarrow> i < int (length xs) \<Longrightarrow> getitem xs i = Inr (xs ! nat i)"
  by (simp add: getitem_def)

lemma length_HANGMAN_STAGES: "length HANGMAN_STAGES = 7"
  by (simp add: HANGMAN_STAGES_def)

lemma stage_lines:
  assumes "n < 7"
  shows "map length (str_split (CHR ''\<newline>'') (HANGMAN_STAGES ! n))
           = [0, 12, 12, 12, 12, 12, 12, 13, 4]"
proof -
  from assms have "n \<in> {0, 1, 2, 3, 4, 5, 6}" by auto
  then show ?thesis
    by (elim insertE emptyE) (simp_all add: HANGMAN_STAGES_def str_split_def)
qed

lemma stage_art:
  assumes "0 \<le> k" "k \<le> MAX_INCORRECT_GUESSES"
  shows "getitem HANGMAN_STAGES k = Inr (HANGMAN_STAGES ! nat k)"
    and "length (str_split (CHR ''\<newline>'') (HANGMAN_STAGES ! nat k)) = 9"
    and "\<forall>l \<in> set (str_split (CHR ''\<newline>'') (HANGMAN_STAGES ! nat k)). length l \<le> 13"
proof -
  from assms have k: "nat k < 7" "k < int (length HANGMAN_STAGES)"
    by (simp_all add: MAX_INCORRECT_GUESSES_6 length_HANGMAN_STAGES)
  show "getitem HANGMAN_STAGES k = Inr (HANGMAN_STAGES ! nat k)"
    using assms(1) k(2) by (rule getitem_in_range)
  let ?art = "str_split (CHR ''\<newline>'') (HANGMAN_STAGES ! nat k)"
  have lens: "map length ?art = [0, 12, 12, 12, 12, 12, 12, 13, 4]"
    using k(1) by (rule stage_lines)
  from arg_cong [OF lens, of length] show "length ?art = 9" by simp
  have "\<forall>n \<in> set (map length ?art). n \<le> 13"
    unfolding lens by simp
  then show "\<forall>l \<in> set ?art. length l \<le> 13" by simp
qed

lemma no_space_guessed:
  assumes "reachable s"
  shows "'' '' \<notin> guessed_letters s"
proof
  assume "'' '' \<in> guessed_letters s"
  with reachable_letters [OF assms]
  have "CHR ''A'' \<le> CHR '' ''" by auto
  then show False by simp
qed

lemma guessed_line_width:
  assumes "reachable s"
  shows "length (join '', '' (sorted_list_of_set (guessed_letters s - {'' ''}))) \<le> 49"
proof -
  let ?G = "guessed_letters s"
  let ?xs = "sorted_list_of_set (?G - {'' ''})"
  from reachable_letters [OF assms]
  have fin: "finite ?G" and one: "\<forall>g \<in> ?G. \<exists>c. g = [c] \<and> CHR ''A'' \<le> c \<and> c \<le> CHR ''Z''"
    by simp_all
  have same: "?G - {'' ''} = ?G"
    using no_space_guessed [OF assms] by simp
  have "set ?xs = ?G" and len: "length ?xs = card ?G"
    using fin by (simp_all add: same)
  then have "\<forall>x \<in> set ?xs. length x = 1"
    using one by auto
  then have "length (join '', '' ?xs) = 3 * card ?G - 2"
    using len by (simp add: length_join_letters)
  moreover have "card ?G \<le> 17"
    using reachable_card [OF assms] word_length [OF reachable_word [OF assms]] by linarith
  ultimately show ?thesis by linarith
qed

lemma game_content_lines:
  assumes "reachable s" and "length message \<le> 67"
  shows "\<exists>content.
           game_content st (chosen_word s) (guessed_letters s) (incorrect_guesses s) message
             = Inr content
           \<and> length content = 19
           \<and> (\<forall>line \<in> set (tl content). length line \<le> 76)"
proof -
  let ?k = "incorrect_guesses s"
  let ?art = "str_split (CHR ''\<newline>'') (HANGMAN_STAGES ! nat ?k)"
  from reachable_incorrect [OF assms(1)]
  have k: "0 \<le> ?k" "?k \<le> MAX_INCORRECT_GUESSES" by simp_all
  note art = stage_art [OF k]
  have word: "length (strip (display_word_loop (chosen_word s) (guessed_letters s) '''')) \<le> 22"
    using length_strip_le [of "display_word_loop (chosen_word s) (guessed_letters s) ''''"]
      word_length [OF reachable_word [OF assms(1)]]
    by (simp add: length_display_word_loop)
  have left: "length (str_int (MAX_INCORRECT_GUESSES - ?k)) = 1"
    using k by (intro length_str_int_digit) (simp_all add: MAX_INCORRECT_GUESSES_6)
  have art_76: "\<forall>l \<in> set ?art. length l \<le> 76"
    using art(3) by fastforce
  show ?thesis
    using art(1,2) art_76 word left guessed_line_width [OF assms(1)] assms(2)
    by (simp add: game_content_def Let_def)
qed

lemma reachable_PYTHON: "reachable (new_game ''PYTHON'')"
  by (rule reachable.start) (simp add: WORD_LIST_def)

lemma getitem_stage_0: "getitem HANGMAN_STAGES 0 = Inr (HANGMAN_STAGES ! 0)"
  by (simp add: getitem_def HANGMAN_STAGES_def)

lemma stage_0_art:
  "str_split (CHR ''\<newline>'') (HANGMAN_STAGES ! 0) =
     [[], ''       -----'', ''       |   |'', ''           |'', ''           |'',
      ''           |'', ''           |'', ''    ---------'', ''    '']"
  by (simp add: HANGMAN_STAGES_def str_split_def)

lemma show_game_ok:
  assumes "reachable s"
  shows "\<exists>frame. show_game st s message skip_effect = Inr frame"
proof -
  from reachable_incorrect [OF assms]
  have k: "0 \<le> incorrect_guesses s" "incorrect_guesses s \<le> MAX_INCORRECT_GUESSES"
    by simp_all
  show ?thesis
    by (simp add: show_game_def display_game_def game_content_def stage_art(1) [OF k] Let_def)
qed

lemma read_guess_accepted:
  "read_guess st s inputs = Inr (guess, rest) \<Longrightarrow>
     \<exists>raw. snd (get_guess st raw (guessed_letters s)) = Some guess"
  by (induction inputs) (auto split: sum.splits option.splits)

lemma read_guess_reachable:
  assumes "reachable s" "\<not> win_condition s" "\<not> loss_condition s"
    and "read_guess st s inputs = Inr (guess, rest)"
  shows "reachable (process_guess s guess)"
proof -
  from read_guess_accepted [OF assms(4)] obtain raw
    where "snd (get_guess st raw (guessed_letters s)) = Some guess" by blast
  with assms(1-3) show ?thesis by (rule reachable.guess)
qed

lemma show_game_case:
  assumes "reachable s"
  shows "(case show_game st s message skip_effect of Inl e \<Rightarrow> h e | Inr frame \<Rightarrow> body) = body"
  using show_game_ok [OF assms, of st message skip_effect] by auto

lemma game_loop_unfold:
  assumes "reachable s"
  shows "game_loop st s inputs =
     (if win_condition s \<or> loss_condition s then Inr (s, inputs)
      else case read_guess st s inputs of
             Inl e \<Rightarrow> Inl e
           | Inr (guess, rest) \<Rightarrow> game_loop st (process_guess s guess) rest)"
proof (cases "win_condition s \<or> loss_condition s")
  case True
  then show ?thesis
    by (subst game_loop.simps) (auto simp: show_game_case [OF assms])
next
  case False
  have step: "(case show_game st (process_guess s guess) (guess_message s guess) False of
                 Inl e \<Rightarrow> Inl e
               | Inr frame \<Rightarrow> game_loop st (process_guess s guess) rest)
              = game_loop st (process_guess s guess) rest"
    if "read_guess st s inputs = Inr (guess, rest)" for guess rest
  proof -
    from False that have "reachable (process_guess s guess)"
      using read_guess_reachable [OF assms] by blast
    then show ?thesis by (rule show_game_case)
  qed
  from False show ?thesis
    by (subst game_loop.simps) (auto simp: show_game_case [OF assms] step split: sum.splits)
qed



lemma get_guess_q: "snd (get_guess st ''q'' {}) = Some ''Q''"
  by (simp add: get_guess_def upper_def upper_char_def)

lemma getitem_stage_7: "getitem HANGMAN_STAGES 7 = Inl IndexError"
  by (simp add: getitem_def length_HANGMAN_STAGES)

lemma show_game_no_error:
  "reachable s \<Longrightarrow> show_game st s message skip_effect \<noteq> Inl e"
  using show_game_ok [of s st message skip_effect] by auto

lemma read_guess_no_IndexError:
  "reachable s \<Longrightarrow> read_guess st s inputs \<noteq> Inl IndexError"
  by (induction inputs) (auto simp: show_game_case split: option.splits)

lemma game_loop_no_IndexError:
  "reachable s \<Longrightarrow> game_loop st s inputs \<noteq> Inl IndexError"
proof (induction st s inputs rule: game_loop.induct)
  case (1 st s inputs)
  show ?case
  proof (cases "win_condition s \<or> loss_condition s")
    case True
    then show ?thesis
      by (subst game_loop_unfold [OF "1.prems"]) simp
  next
    case False
    obtain frame where frame: "show_game st s ''Guess a letter.'' False = Inr frame"
      using show_game_ok [OF "1.prems"] by blast
    show ?thesis
    proof (cases "read_guess st s inputs")
      case (Inl e)
      with read_guess_no_IndexError [OF "1.prems", of st inputs] False show ?thesis
        by (subst game_loop_unfold [OF "1.prems"]) auto
    next
      case (Inr pair)
      obtain guess rest where pair: "pair = (guess, rest)" by (cases pair)
      have next_state: "reachable (process_guess s guess)"
        using read_guess_reachable [OF "1.prems"] False Inr pair by blast
      obtain frame' where frame':
        "show_game st (process_guess s guess) (guess_message s guess) False = Inr frame'"
        using show_game_ok [OF next_state] by blast
      have "game_loop st (process_guess s guess) rest \<noteq> Inl IndexError"
        using "1.IH" [OF frame _ _ _ _ frame' next_state] False Inr pair by simp
      with False Inr pair show ?thesis
        by (subst game_loop_unfold [OF "1.prems"]) simp
    qed
  qed
qed

lemma game_loop_grows:
  "reachable s \<Longrightarrow> game_loop st s inputs = Inr (s', rest) \<Longrightarrow>
     guessed_letters s \<subseteq> guessed_letters s' \<and> reachable s'"
proof (induction st s inputs rule: game_loop.induct)
  case (1 st s inputs)
  note r = "1.prems"(1)
  show ?case
  proof (cases "win_condition s \<or> loss_condition s")
    case True
    with "1.prems"(2) r show ?thesis
      by (subst (asm) game_loop_unfold [OF r]) auto
  next
    case False
    obtain frame where frame: "show_game st s ''Guess a letter.'' False = Inr frame"
      using show_game_ok [OF r] by blast
    from False "1.prems"(2) obtain guess rest' where
      read: "read_guess st s inputs = Inr (guess, rest')"
      and run: "game_loop st (process_guess s guess) rest' = Inr (s', rest)"
      by (subst (asm) game_loop_unfold [OF r]) (auto split: sum.splits)
    have next_state: "reachable (process_guess s guess)"
      using read_guess_reachable [OF r] False read by blast
    obtain frame' where frame':
      "show_game st (process_guess s guess) (guess_message s guess) False = Inr frame'"
      using show_game_ok [OF next_state] by blast
    have "guessed_letters (process_guess s guess) \<subseteq> guessed_letters s' \<and> reachable s'"
      using "1.IH" [OF frame _ _ read refl frame' next_state run] False by simp
    then show ?thesis by auto
  qed
qed

lemma random_choice_member:
  "corpus \<noteq> [] \<Longrightarrow> \<exists>word \<in> set corpus. random_choice r corpus = Inr word"
  by (simp add: random_choice_def)

lemma WORD_LIST_nonempty: "WORD_LIST \<noteq> []"
  by (simp add: WORD_LIST_def)

lemma title_row_width:
  assumes "game_content st word guessed k message = Inr content"
  shows "length (content_rows content ! 0)
           = 4 + max 76 (42 + length (Style_BRIGHT st) + length (Style_RESET_ALL st))"
  using assms
  by (auto simp: game_content_def Let_def content_rows_def ljust_def split: sum.splits)

lemma styled_length:
  "length (apply_crt_style colorama row bright) = length row + 18"
  by (simp add: apply_crt_style_def colorama_def)

subsection \<open>The claims\<close>

text \<open>
  Claim C1, as amended. In every reachable state of a game, and for every status message
  of at most 67 characters (the interior width 76 less the 9 characters of the prefix
  \<^verbatim>\<open> Status: \<close>), \<^verbatim>\<open>display_game\<close> succeeds and the frame has exactly 24 lines: the
  border line, 22 content rows, the border line. Before \<^verbatim>\<open>apply_crt_style\<close> is applied,
  the border line has 80 characters, each content row is a content line padded to 76
  characters between \<^verbatim>\<open>| \<close> and \<^verbatim>\<open> |\<close>, and every content row below the title row has
  exactly 80 characters. The title row is left out of the width statement: its content
  carries the emphasis sequences before it is padded (lemma \<open>title_row_width\<close>).
\<close>

theorem frame_24_by_80:
  assumes "reachable s" and "length message \<le> 67"
  shows "\<exists>content.
     game_content st (chosen_word s) (guessed_letters s) (incorrect_guesses s) message
       = Inr content
     \<and> display_game st (chosen_word s) (guessed_letters s) (incorrect_guesses s) message
         skip_effect = Inr (draw_border_and_content st content)
     \<and> draw_border_and_content st content =
         apply_crt_style st border_line False
         # map (\<lambda>row. apply_crt_style st row True) (content_rows content)
         @ [apply_crt_style st border_line False]
     \<and> length (draw_border_and_content st content) = 24
     \<and> length border_line = 80
     \<and> content_rows content =
         map (\<lambda>line. ''| '' @ line @ '' |'')
           (map (\<lambda>line. ljust line 76) content @ replicate 3 (replicate 76 (CHR '' '')))
     \<and> (\<forall>i < 22. 0 < i \<longrightarrow> length (content_rows content ! i) = 80)"
proof -
  from game_content_lines [OF assms, of st] obtain content where
    content: "game_content st (chosen_word s) (guessed_letters s) (incorrect_guesses s) message
                = Inr content"
    and len: "length content = 19"
    and lines: "\<forall>line \<in> set (tl content). length line \<le> 76"
    by blast
  have shown: "display_game st (chosen_word s) (guessed_letters s) (incorrect_guesses s)
                 message skip_effect = Inr (draw_border_and_content st content)"
    by (simp add: display_game_def content)
  have rows: "length (content_rows content) = 22"
    using len by (simp add: length_content_rows)
  have total: "length (draw_border_and_content st content) = 24"
    by (simp add: draw_border_and_content_rows rows)
  have shape: "content_rows content =
         map (\<lambda>line. ''| '' @ line @ '' |'')
           (map (\<lambda>line. ljust line 76) content @ replicate 3 (replicate 76 (CHR '' '')))"
    by (simp add: content_rows_def len)
  have width: "length (content_rows content ! i) = 80" if "i < 22" "0 < i" for i
  proof (cases "i < length content")
    case True
    with that(2) have "content ! i = tl content ! (i - 1)"
      by (simp add: nth_tl)
    moreover have "i - 1 < length (tl content)"
      using True that(2) by simp
    ultimately have "content ! i \<in> set (tl content)"
      by (metis nth_mem)
    with lines have "length (content ! i) \<le> 76" by blast
    with True show ?thesis by (rule content_row_width)
  next
    case False
    then have "length content \<le> i" by simp
    then show ?thesis using that(1) by (rule filler_row_width)
  qed
  from content shown total shape width length_border_line
  show ?thesis
    by (intro exI [of _ content]) (simp add: draw_border_and_content_rows)
qed

text \<open>
  Claim C1 as stated fails for a message of 70 characters, which is shorter than the
  interior width: in the first frame of a game on \<^verbatim>\<open>PYTHON\<close> the status row then has 83
  characters before styling (101 with colorama's sequences, where the others have 98).
  In the same frame the title row has 80 characters only with the 8 characters of the
  two emphasis sequences that its content embeds: 72 are left for what is shown.
\<close>

theorem frame_24_by_80_counterexample:
  "reachable (new_game ''PYTHON'')
   \<and> length (replicate 70 (CHR ''x'')) < 76
   \<and> map_sum id (map length \<circ> frame_rows)
        (game_content colorama ''PYTHON'' {} 0 (replicate 70 (CHR ''x'')))
      = Inr [80, 80, 80, 80, 80, 80, 80, 80, 80, 80, 80, 80, 80, 80, 80, 80, 80,
             83, 80, 80, 80, 80, 80, 80]
   \<and> map_sum id (map length)
        (display_game colorama ''PYTHON'' {} 0 (replicate 70 (CHR ''x'')) False)
      = Inr [98, 98, 98, 98, 98, 98, 98, 98, 98, 98, 98, 98, 98, 98, 98, 98, 98,
             101, 98, 98, 98, 98, 98, 98]
   \<and> map_sum id
        (\<lambda>content. length (content_rows content ! 0)
           - length (Style_BRIGHT colorama) - length (Style_RESET_ALL colorama))
        (game_content colorama ''PYTHON'' {} 0 (replicate 70 (CHR ''x'')))
      = Inr 72"
proof -
  have rows: "map_sum id (map length \<circ> frame_rows)
        (game_content colorama ''PYTHON'' {} 0 (replicate 70 (CHR ''x'')))
      = Inr [80, 80, 80, 80, 80, 80, 80, 80, 80, 80, 80, 80, 80, 80, 80, 80, 80,
             83, 80, 80, 80, 80, 80, 80]"
    by (simp add: game_content_def getitem_stage_0 stage_0_art Let_def frame_rows_def
        content_rows_def border_line_def ljust_def colorama_def
        strip_def isspace_def str_int_def MAX_INCORRECT_GUESSES_6 numeral_3_eq_3)
  have styled: "map_sum id (map length)
        (display_game colorama ''PYTHON'' {} 0 (replicate 70 (CHR ''x'')) False)
      = Inr [98, 98, 98, 98, 98, 98, 98, 98, 98, 98, 98, 98, 98, 98, 98, 98, 98,
             101, 98, 98, 98, 98, 98, 98]"
    by (simp add: display_game_def draw_border_and_content_rows styled_length
        game_content_def getitem_stage_0 stage_0_art Let_def
        content_rows_def border_line_def ljust_def
        strip_def isspace_def str_int_def MAX_INCORRECT_GUESSES_6 numeral_3_eq_3)
      (simp add: colorama_def)
  have title: "map_sum id
        (\<lambda>content. length (content_rows content ! 0)
           - length (Style_BRIGHT colorama) - length (Style_RESET_ALL colorama))
        (game_content colorama ''PYTHON'' {} 0 (replicate 70 (CHR ''x'')))
      = Inr 72"
    by (simp add: game_content_def getitem_stage_0 Let_def content_rows_def ljust_def
        colorama_def)
  from rows styled title reachable_PYTHON show ?thesis by simp
qed

text \<open>The amended claim at the first frame of a game on \<^verbatim>\<open>PYTHON\<close>.\<close>

theorem frame_24_by_80_witness:
  "reachable (new_game ''PYTHON'') \<and> length ''Guess a letter.'' \<le> 67
   \<and> map_sum id length (display_game colorama ''PYTHON'' {} 0 ''Guess a letter.'' False)
       = Inr 24"
proof -
  have msg: "length ''Guess a letter.'' \<le> 67" by simp
  from frame_24_by_80 [OF reachable_PYTHON msg, of colorama False]
  show ?thesis using reachable_PYTHON by (auto simp: new_game_def)
qed



text \<open>
  Claim C3. Processing an accepted guess adds exactly 1 to \<^verbatim>\<open>incorrect_guesses\<close> if the
  letter does not occur in the word and 0 if it does, and in every reachable state the
  counter lies between 0 and \<open>MAX_INCORRECT_GUESSES\<close>.
\<close>

theorem incorrect_count_step:
  "(snd (get_guess st raw (guessed_letters s)) = Some guess \<longrightarrow>
      (\<exists>c. guess = [c]
         \<and> incorrect_guesses (process_guess s guess)
             = incorrect_guesses s + (if c \<in> set (chosen_word s) then 0 else 1)))
   \<and> (reachable s \<longrightarrow>
        0 \<le> incorrect_guesses s \<and> incorrect_guesses s \<le> MAX_INCORRECT_GUESSES)"
proof -
  have step: "\<exists>c. guess = [c]
         \<and> incorrect_guesses (process_guess s guess)
             = incorrect_guesses s + (if c \<in> set (chosen_word s) then 0 else 1)"
    if "snd (get_guess st raw (guessed_letters s)) = Some guess"
  proof -
    from get_guess_accepted [OF that] obtain c where "guess = [c]" by blast
    then show ?thesis
      by (simp add: incorrect_guesses_process_guess str_contains_one)
  qed
  with reachable_incorrect [of s] show ?thesis by blast
qed

text \<open>The letter Q, guessed first in a game on \<^verbatim>\<open>PYTHON\<close>, is counted.\<close>

theorem incorrect_count_step_witness:
  "snd (get_guess colorama ''q'' (guessed_letters (new_game ''PYTHON''))) = Some ''Q''
   \<and> reachable (new_game ''PYTHON'')
   \<and> incorrect_guesses (process_guess (new_game ''PYTHON'') ''Q'') = 1
   \<and> incorrect_guesses (new_game ''PYTHON'') \<le> MAX_INCORRECT_GUESSES"
proof -
  have q: "snd (get_guess colorama ''q'' (guessed_letters (new_game ''PYTHON''))) = Some ''Q''"
    by (simp add: new_game_def get_guess_q)
  from incorrect_count_step [of colorama "''q''" "new_game ''PYTHON''" "''Q''"] q
    reachable_PYTHON
  show ?thesis by (simp add: new_game_def)
qed

text \<open>
  Claim C4. \<^verbatim>\<open>get_guess\<close> returns a guess exactly when the upper-cased input is a single
  character from A to Z that is not among the letters already guessed, and it returns
  that upper-case letter; \<^verbatim>\<open>a\<close> is accepted as \<^verbatim>\<open>A\<close>, and \<^verbatim>\<open>ab\<close>, \<^verbatim>\<open>1\<close>, and \<^verbatim>\<open>A\<close> when
  already guessed, are rejected.
\<close>

theorem get_guess_accepts:
  "(snd (get_guess st raw already_guessed) = Some x \<longleftrightarrow>
      (\<exists>c. upper raw = [c] \<and> CHR ''A'' \<le> c \<and> c \<le> CHR ''Z''
           \<and> [c] \<notin> already_guessed \<and> x = [c]))
   \<and> snd (get_guess st ''a'' {}) = Some ''A''
   \<and> snd (get_guess st ''ab'' {}) = None
   \<and> snd (get_guess st ''1'' {}) = None
   \<and> snd (get_guess st ''A'' {''A''}) = None"
proof -
  have general: "snd (get_guess st raw already_guessed) = Some x \<longleftrightarrow>
      (\<exists>c. upper raw = [c] \<and> CHR ''A'' \<le> c \<and> c \<le> CHR ''Z''
           \<and> [c] \<notin> already_guessed \<and> x = [c])"
  proof (cases "length (upper raw) = 1")
    case True
    then obtain c where c: "upper raw = [c]"
      by (cases "upper raw") auto
    show ?thesis
      using one_char_range [of c] by (auto simp: get_guess_def c Let_def)
  next
    case False
    then show ?thesis
      by (auto simp: get_guess_def Let_def)
  qed
  have a: "snd (get_guess st ''a'' {}) = Some ''A''"
    by (simp add: get_guess_def upper_a)
  have ab: "snd (get_guess st ''ab'' {}) = None"
    by (simp add: get_guess_def upper_ab)
  have one: "snd (get_guess st ''1'' {}) = None"
    by (simp add: get_guess_def upper_1)
  have dup: "snd (get_guess st ''A'' {''A''}) = None"
    by (simp add: get_guess_def upper_A)
  from general a ab one dup show ?thesis by blast
qed

text \<open>The input \<^verbatim>\<open>a\<close> after Q has been guessed.\<close>

theorem get_guess_accepts_witness:
  "upper ''a'' = ''A'' \<and> snd (get_guess colorama ''a'' {''Q''}) = Some ''A''"
  using get_guess_accepts [of colorama "''a''" "{''Q''}" "''A''"] upper_a by simp

text \<open>
  Claim C5, as amended. \<^verbatim>\<open>get_guess\<close> has two rejection messages, not three: one
  message for every input that is not a single letter from A to Z, whether its length
  or its character is at fault, and one, naming the letter, for a letter already
  guessed. The two messages differ, a message is printed exactly when the input is
  rejected, and after a rejection the loop shows the frame again and reads the next
  line.
\<close>

theorem rejection_messages:
  "(fst (get_guess st raw already_guessed) = Some (apply_crt_style st invalid_input_message True)
      \<longleftrightarrow> length (upper raw) \<noteq> 1 \<or> \<not> (''A'' \<le> upper raw \<and> upper raw \<le> ''Z''))
   \<and> (fst (get_guess st raw already_guessed)
         = Some (apply_crt_style st (already_guessed_message (upper raw)) True)
      \<longleftrightarrow> length (upper raw) = 1 \<and> ''A'' \<le> upper raw \<and> upper raw \<le> ''Z''
           \<and> upper raw \<in> already_guessed)
   \<and> (fst (get_guess st raw already_guessed) = None
      \<longleftrightarrow> snd (get_guess st raw already_guessed) = Some (upper raw))
   \<and> (snd (get_guess st raw already_guessed) = None
      \<longleftrightarrow> fst (get_guess st raw already_guessed) \<noteq> None)
   \<and> apply_crt_style st invalid_input_message True
        \<noteq> apply_crt_style st (already_guessed_message (upper raw)) True
   \<and> (snd (get_guess st raw (guessed_letters s)) = None \<longrightarrow>
        read_guess st s (raw # rest) =
          (case show_game st s ''Enter your guess...'' False of
             Inl e \<Rightarrow> Inl e
           | Inr frame \<Rightarrow> read_guess st s rest))"
proof -
  have differ: "apply_crt_style st invalid_input_message True
        \<noteq> apply_crt_style st (already_guessed_message (upper raw)) True"
    by (simp add: apply_crt_style_inject messages_differ)
  have invalid: "fst (get_guess st raw already_guessed)
        = Some (apply_crt_style st invalid_input_message True)
      \<longleftrightarrow> length (upper raw) \<noteq> 1 \<or> \<not> (''A'' \<le> upper raw \<and> upper raw \<le> ''Z'')"
    using differ by (auto simp: get_guess_def Let_def)
  have already: "fst (get_guess st raw already_guessed)
         = Some (apply_crt_style st (already_guessed_message (upper raw)) True)
      \<longleftrightarrow> length (upper raw) = 1 \<and> ''A'' \<le> upper raw \<and> upper raw \<le> ''Z''
           \<and> upper raw \<in> already_guessed"
    using differ by (auto simp: get_guess_def Let_def)
  have accepted: "fst (get_guess st raw already_guessed) = None
      \<longleftrightarrow> snd (get_guess st raw already_guessed) = Some (upper raw)"
    by (auto simp: get_guess_def Let_def)
  have rejected: "snd (get_guess st raw already_guessed) = None
      \<longleftrightarrow> fst (get_guess st raw already_guessed) \<noteq> None"
    by (auto simp: get_guess_def Let_def)
  have again: "snd (get_guess st raw (guessed_letters s)) = None \<longrightarrow>
        read_guess st s (raw # rest) =
          (case show_game st s ''Enter your guess...'' False of
             Inl e \<Rightarrow> Inl e
           | Inr frame \<Rightarrow> read_guess st s rest)"
    by (simp split: sum.splits)
  from differ invalid already accepted rejected again show ?thesis by blast
qed

text \<open>
  Claim C5 as stated fails: an input of the wrong length (\<^verbatim>\<open>ab\<close>) and an input that is
  not a letter (\<^verbatim>\<open>1\<close>) are answered with the same message and the same result.
\<close>

theorem rejection_messages_counterexample:
  "get_guess colorama ''ab'' {} = (Some (apply_crt_style colorama invalid_input_message True), None)
   \<and> get_guess colorama ''1'' {} = (Some (apply_crt_style colorama invalid_input_message True), None)"
  by (simp add: get_guess_def upper_ab upper_1)

text \<open>After the rejected \<^verbatim>\<open>1\<close> the next line, \<^verbatim>\<open>q\<close>, is read and accepted.\<close>

theorem rejection_messages_witness:
  "snd (get_guess colorama ''1'' (guessed_letters (new_game ''PYTHON''))) = None
   \<and> read_guess colorama (new_game ''PYTHON'') [''1'', ''q''] = Inr (''Q'', [])"
proof -
  have none: "snd (get_guess colorama ''1'' (guessed_letters (new_game ''PYTHON''))) = None"
    by (simp add: get_guess_def upper_1)
  have q: "snd (get_guess colorama ''q'' (guessed_letters (new_game ''PYTHON''))) = Some ''Q''"
    by (simp add: new_game_def get_guess_q)
  have "read_guess colorama (new_game ''PYTHON'') [''q''] = Inr (''Q'', [])"
    by (simp add: show_game_case [OF reachable_PYTHON] q)
  with rejection_messages [of colorama "''1''" "{}" "new_game ''PYTHON''" "[''q'']"] none
  show ?thesis
    by (simp add: show_game_case [OF reachable_PYTHON])
qed

text \<open>
  Claim C6. The masked word holds, for each letter of the word in order, the letter and
  a space if the letter has been guessed and an underscore and a space otherwise; the
  word line of the frame shows it without the last space: for \<^verbatim>\<open>CAT\<close> it is
  \<^verbatim>\<open>C _ _\<close> once C is guessed, \<^verbatim>\<open>C A _\<close> after A, and \<^verbatim>\<open>C A T\<close> after T.
\<close>

theorem masked_word:
  "display_word_loop word guessed ''''
     = concat (map (\<lambda>letter. if [letter] \<in> guessed then [letter] @ '' '' else ''_ '')
                 word)
   \<and> map_sum id (\<lambda>content. content ! 12) (game_content st ''CAT'' {''C''} 0 message)
       = Inr '' Word: C _ _''
   \<and> map_sum id (\<lambda>content. content ! 12) (game_content st ''CAT'' {''C'', ''A''} 0 message)
       = Inr '' Word: C A _''
   \<and> map_sum id (\<lambda>content. content ! 12)
        (game_content st ''CAT'' {''C'', ''A'', ''T''} 0 message)
       = Inr '' Word: C A T''"
proof -
  have loop: "display_word_loop word guessed ''''
     = concat (map (\<lambda>letter. if [letter] \<in> guessed then [letter] @ '' '' else ''_ '')
                 word)"
    by (simp add: display_word_loop_acc)
  have c: "map_sum id (\<lambda>content. content ! 12) (game_content st ''CAT'' {''C''} 0 message)
       = Inr '' Word: C _ _''"
    by (simp add: game_content_def getitem_stage_0 stage_0_art Let_def strip_def isspace_def)
  have ca: "map_sum id (\<lambda>content. content ! 12)
        (game_content st ''CAT'' {''C'', ''A''} 0 message) = Inr '' Word: C A _''"
    by (simp add: game_content_def getitem_stage_0 stage_0_art Let_def strip_def isspace_def)
  have cat: "map_sum id (\<lambda>content. content ! 12)
        (game_content st ''CAT'' {''C'', ''A'', ''T''} 0 message) = Inr '' Word: C A T''"
    by (simp add: game_content_def getitem_stage_0 stage_0_art Let_def strip_def isspace_def)
  from loop c ca cat show ?thesis by blast
qed

text \<open>The masked word of \<^verbatim>\<open>CAT\<close> with C guessed, before the last space is stripped.\<close>

theorem masked_word_witness:
  "display_word_loop ''CAT'' {''C''} '''' = ''C _ _ ''"
  using masked_word [of "''CAT''" "{''C''}"] by simp

text \<open>
  Claim C7. \<open>MAX_INCORRECT_GUESSES\<close> is the number of stages less one, which is 6 and
  the highest index of \<open>HANGMAN_STAGES\<close>; in every reachable state the counter is a
  valid index, so that the stage lookup, \<^verbatim>\<open>display_game\<close> and the game loop never
  raise \<^verbatim>\<open>IndexError\<close>.
\<close>

theorem stage_index_in_bounds:
  "MAX_INCORRECT_GUESSES = int (length HANGMAN_STAGES) - 1
   \<and> MAX_INCORRECT_GUESSES = 6
   \<and> getitem HANGMAN_STAGES MAX_INCORRECT_GUESSES = Inr (last HANGMAN_STAGES)
   \<and> getitem HANGMAN_STAGES (MAX_INCORRECT_GUESSES + 1) = Inl IndexError
   \<and> (reachable s \<longrightarrow>
        0 \<le> incorrect_guesses s \<and> incorrect_guesses s \<le> MAX_INCORRECT_GUESSES
        \<and> getitem HANGMAN_STAGES (incorrect_guesses s)
            = Inr (HANGMAN_STAGES ! nat (incorrect_guesses s))
        \<and> display_game st (chosen_word s) (guessed_letters s) (incorrect_guesses s)
            message skip_effect \<noteq> Inl IndexError
        \<and> game_loop st s inputs \<noteq> Inl IndexError)"
proof -
  have top: "getitem HANGMAN_STAGES MAX_INCORRECT_GUESSES = Inr (last HANGMAN_STAGES)"
    by (simp add: MAX_INCORRECT_GUESSES_6 getitem_def length_HANGMAN_STAGES)
      (simp add: HANGMAN_STAGES_def)
  have beyond: "getitem HANGMAN_STAGES (MAX_INCORRECT_GUESSES + 1) = Inl IndexError"
    by (simp add: MAX_INCORRECT_GUESSES_6 getitem_stage_7)
  have states: "0 \<le> incorrect_guesses s \<and> incorrect_guesses s \<le> MAX_INCORRECT_GUESSES
        \<and> getitem HANGMAN_STAGES (incorrect_guesses s)
            = Inr (HANGMAN_STAGES ! nat (incorrect_guesses s))
        \<and> display_game st (chosen_word s) (guessed_letters s) (incorrect_guesses s)
            message skip_effect \<noteq> Inl IndexError
        \<and> game_loop st s inputs \<noteq> Inl IndexError"
    if r: "reachable s"
  proof -
    from reachable_incorrect [OF r]
    have k: "0 \<le> incorrect_guesses s" "incorrect_guesses s \<le> MAX_INCORRECT_GUESSES"
      by simp_all
    from show_game_no_error [OF r, of st message skip_effect IndexError]
    have "display_game st (chosen_word s) (guessed_letters s) (incorrect_guesses s)
            message skip_effect \<noteq> Inl IndexError"
      by (simp add: show_game_def)
    with k stage_art(1) [OF k] game_loop_no_IndexError [OF r] show ?thesis by simp
  qed
  from top beyond states show ?thesis
    by (simp add: MAX_INCORRECT_GUESSES_6 length_HANGMAN_STAGES)
qed

text \<open>The first lookup of a game on \<^verbatim>\<open>PYTHON\<close>, and a run of its loop.\<close>

theorem stage_index_in_bounds_witness:
  "reachable (new_game ''PYTHON'')
   \<and> getitem HANGMAN_STAGES (incorrect_guesses (new_game ''PYTHON''))
       = Inr (HANGMAN_STAGES ! 0)
   \<and> game_loop colorama (new_game ''PYTHON'') [''q''] \<noteq> Inl IndexError"
  using stage_index_in_bounds [of "new_game ''PYTHON''" colorama "''''" False "[''q'']"]
    reachable_PYTHON
  by (simp add: new_game_def)

text \<open>
  Claim C8. Processing a guess never removes a guessed letter; a guess that
  \<^verbatim>\<open>get_guess\<close> returns is not yet in the set, so that the set grows by exactly one
  element; in every reachable state the set is finite and holds only one-letter strings
  from A to Z; and the set at the end of the game loop includes the set at its start.
\<close>

theorem guessed_letters_grow:
  "guessed_letters s \<subseteq> guessed_letters (process_guess s guess)
   \<and> (snd (get_guess st raw (guessed_letters s)) = Some guess \<longrightarrow>
        guess \<notin> guessed_letters s
        \<and> guessed_letters (process_guess s guess) = insert guess (guessed_letters s))
   \<and> (reachable s \<longrightarrow>
        finite (guessed_letters s)
        \<and> (\<forall>g \<in> guessed_letters s. \<exists>c. g = [c] \<and> CHR ''A'' \<le> c \<and> c \<le> CHR ''Z'')
        \<and> (snd (get_guess st raw (guessed_letters s)) = Some guess \<longrightarrow>
             card (guessed_letters (process_guess s guess)) = card (guessed_letters s) + 1)
        \<and> (game_loop st s inputs = Inr (s', rest) \<longrightarrow>
             guessed_letters s \<subseteq> guessed_letters s'))"
proof -
  have grows: "guessed_letters s \<subseteq> guessed_letters (process_guess s guess)"
    by auto
  have fresh: "guess \<notin> guessed_letters s
        \<and> guessed_letters (process_guess s guess) = insert guess (guessed_letters s)"
    if "snd (get_guess st raw (guessed_letters s)) = Some guess"
  proof -
    from get_guess_accepted [OF that] have "guess \<notin> guessed_letters s" by blast
    then show ?thesis by simp
  qed
  have states: "finite (guessed_letters s)
        \<and> (\<forall>g \<in> guessed_letters s. \<exists>c. g = [c] \<and> CHR ''A'' \<le> c \<and> c \<le> CHR ''Z'')
        \<and> (snd (get_guess st raw (guessed_letters s)) = Some guess \<longrightarrow>
             card (guessed_letters (process_guess s guess)) = card (guessed_letters s) + 1)
        \<and> (game_loop st s inputs = Inr (s', rest) \<longrightarrow>
             guessed_letters s \<subseteq> guessed_letters s')"
    if r: "reachable s"
  proof -
    note letters = reachable_letters [OF r]
    have "card (guessed_letters (process_guess s guess)) = card (guessed_letters s) + 1"
      if "snd (get_guess st raw (guessed_letters s)) = Some guess"
      using fresh [OF that] letters by simp
    moreover have "guessed_letters s \<subseteq> guessed_letters s'"
      if "game_loop st s inputs = Inr (s', rest)"
      using game_loop_grows [OF r that] by simp
    ultimately show ?thesis using letters by blast
  qed
  from grows fresh states show ?thesis by blast
qed

text \<open>The letter Q, guessed first in a game on \<^verbatim>\<open>PYTHON\<close>.\<close>

theorem guessed_letters_grow_witness:
  "snd (get_guess colorama ''q'' (guessed_letters (new_game ''PYTHON''))) = Some ''Q''
   \<and> reachable (new_game ''PYTHON'')
   \<and> ''Q'' \<notin> guessed_letters (new_game ''PYTHON'')
   \<and> guessed_letters (process_guess (new_game ''PYTHON'') ''Q'') = {''Q''}
   \<and> card (guessed_letters (process_guess (new_game ''PYTHON'') ''Q'')) = 1"
proof -
  have q: "snd (get_guess colorama ''q'' (guessed_letters (new_game ''PYTHON''))) = Some ''Q''"
    by (simp add: new_game_def get_guess_q)
  from guessed_letters_grow [of "new_game ''PYTHON''" "''Q''" colorama "''q''"] q
    reachable_PYTHON
  show ?thesis by (simp add: new_game_def)
qed

text \<open>
  Claim C9, as amended. \<^verbatim>\<open>random.choice\<close> returns a word of the list it is given when
  the list is not empty, and on an empty list it fails with \<^verbatim>\<open>IndexError\<close>; the program
  has no \<open>ConfigurationError\<close>. The list the program draws from, \<open>WORD_LIST\<close>, is not
  empty, so that every game starts with one of its words.
\<close>

theorem word_selection:
  "(corpus \<noteq> [] \<longrightarrow> (\<exists>word \<in> set corpus. random_choice r corpus = Inr word))
   \<and> random_choice r ([] :: string list) = Inl IndexError
   \<and> (\<exists>word \<in> set WORD_LIST. random_choice r WORD_LIST = Inr word
         \<and> play_round st r inputs = game_loop st (new_game word) inputs)"
proof -
  from random_choice_member [OF WORD_LIST_nonempty, of r] obtain word
    where "word \<in> set WORD_LIST" "random_choice r WORD_LIST = Inr word" by blast
  then have "\<exists>word \<in> set WORD_LIST. random_choice r WORD_LIST = Inr word
         \<and> play_round st r inputs = game_loop st (new_game word) inputs"
    by (auto simp: play_round_def)
  moreover have "random_choice r ([] :: string list) = Inl IndexError"
    by (simp add: random_choice_def)
  ultimately show ?thesis using random_choice_member [of corpus r] by blast
qed

text \<open>
  Claim C9 as stated fails: on an empty list the selection fails with
  \<^verbatim>\<open>IndexError\<close>, not with \<open>ConfigurationError\<close>.
\<close>

theorem word_selection_counterexample:
  "random_choice 0 ([] :: string list) = Inl IndexError
   \<and> random_choice 0 ([] :: string list) \<noteq> Inl ConfigurationError"
  by (simp add: random_choice_def)

text \<open>A list of one word.\<close>

theorem word_selection_witness:
  "[''CAT''] \<noteq> [] \<and> random_choice 5 [''CAT''] = Inr ''CAT''"
  using word_selection [of "[''CAT'']" 5] by simp



end
